theory Spec2Isabelle
  imports Main "HOL-Library.Word"
begin

section \<open>ink-text-input: the TextInput component of source/index.tsx\<close>

text \<open>
  The component is a React function component. Its body is modelled in three parts that
  follow the source top to bottom: the two \<open>useEffect\<close> bodies (lines 116-139), the
  computation of the rendered text (lines 141-174 and the JSX expression of lines 271-275)
  and the \<open>useInput\<close> handler (lines 177-257). The pass-through style props (color,
  backgroundColor, dimColor, bold, italic, underline, strikethrough) are handed to
  \<open>Text\<close> unchanged and take part in no computation; they are left out of \<open>props\<close>.
\<close>

subsection \<open>JavaScript strings\<close>

text \<open>
  A JavaScript string is a sequence of UTF-16 code units; \<open>length\<close> counts code units.
  \<open>js\<close> writes a string literal of the source (ASCII only) as such a sequence.
\<close>

type_synonym jsstring = "16 word list"

definition js :: "string \<Rightarrow> jsstring" where
  "js s = map (\<lambda>c. of_nat (of_char c)) s"

text \<open>
  \<open>String.prototype.slice(start, end)\<close>: a negative index counts from the end, both
  indices are clamped into \<open>[0, length]\<close>, and the result is empty when the clamped start
  is not before the clamped end.
\<close>

definition slice :: "jsstring \<Rightarrow> int \<Rightarrow> int \<Rightarrow> jsstring" where
  "slice s start end' =
     (let len = int (length s);
          from = (if start < 0 then max (len + start) 0 else min start len);
          to = (if end' < 0 then max (len + end') 0 else min end' len)
      in take (nat (to - from)) (drop (nat from) s))"

text \<open>\<open>String.prototype.repeat(count)\<close> for a count that is a length.\<close>

definition repeat :: "jsstring \<Rightarrow> nat \<Rightarrow> jsstring" where
  "repeat s count = concat (replicate count s)"

text \<open>
  The string iterator used by \<open>for (const char of value)\<close> yields code points: a high
  surrogate followed by a low surrogate is one two-unit string, every other code unit is a
  one-unit string.
\<close>

definition is_high_surrogate :: "16 word \<Rightarrow> bool" where
  "is_high_surrogate u \<longleftrightarrow> 0xD800 \<le> u \<and> u \<le> 0xDBFF"

definition is_low_surrogate :: "16 word \<Rightarrow> bool" where
  "is_low_surrogate u \<longleftrightarrow> 0xDC00 \<le> u \<and> u \<le> 0xDFFF"

fun string_iterator :: "jsstring \<Rightarrow> jsstring list" where
  "string_iterator [] = []"
| "string_iterator [u] = [[u]]"
| "string_iterator (u # w # rest) =
     (if is_high_surrogate u \<and> is_low_surrogate w
      then [u, w] # string_iterator rest
      else [u] # string_iterator (w # rest))"

subsection \<open>The styling helper (chalk)\<close>

text \<open>
  chalk is an external library. A styled string is a JavaScript string in which the
  escape sequences that open and close a style are embedded; here each escape sequence is
  one atomic token, so that string concatenation is list append and removing the styling
  markers is dropping the marker tokens. chalk returns an empty string unchanged.
\<close>

datatype style = Inverse | Grey

datatype token = CodeUnit "16 word" | Open style | Close style

type_synonym styled = "token list"

definition raw :: "jsstring \<Rightarrow> styled" where
  "raw s = map CodeUnit s"

definition chalk :: "style \<Rightarrow> jsstring \<Rightarrow> styled" where
  "chalk sty s = (if s = [] then [] else Open sty # raw s @ [Close sty])"

definition chalk_inverse :: "jsstring \<Rightarrow> styled" where
  "chalk_inverse s = chalk Inverse s"

definition chalk_grey :: "jsstring \<Rightarrow> styled" where
  "chalk_grey s = chalk Grey s"

fun strip_styles :: "styled \<Rightarrow> jsstring" where
  "strip_styles [] = []"
| "strip_styles (CodeUnit u # ts) = u # strip_styles ts"
| "strip_styles (Open _ # ts) = strip_styles ts"
| "strip_styles (Close _ # ts) = strip_styles ts"

subsection \<open>Props, state, key events\<close>

text \<open>
  \<open>originalValue\<close> is the prop \<open>value\<close> under the name the component binds it to.
  \<open>mask\<close> is optional (\<open>None\<close> is \<open>undefined\<close>). \<open>onSubmit\<close> is optional as well; since
  a callback is modelled by the call it receives, the prop records only whether a callback
  was supplied.
\<close>

record props =
  originalValue :: jsstring
  placeholder :: jsstring
  focus :: bool
  mask :: "jsstring option"
  highlightPastedText :: bool
  showCursor :: bool
  highlightOnFocus :: bool
  onSubmit :: bool

record state =
  cursorOffset :: int
  cursorWidth :: int
  isHighlighted :: bool

text \<open>The flags of Ink's \<open>Key\<close> that the handler reads.\<close>

record key =
  upArrow :: bool
  downArrow :: bool
  leftArrow :: bool
  rightArrow :: bool
  return :: bool
  backspace :: bool
  delete :: bool
  tab :: bool
  ctrl :: bool
  shift :: bool

text \<open>
  The props of a caller that passes only \<open>value\<close> (and \<open>onChange\<close>): every other prop
  takes the default of lines 89-106. \<open>plain_key\<close> is a key event with no flag set.
\<close>

definition default_props :: "jsstring \<Rightarrow> props" where
  "default_props v =
     \<lparr>originalValue = v, placeholder = [], focus = True, mask = None,
      highlightPastedText = False, showCursor = True, highlightOnFocus = False,
      onSubmit = False\<rparr>"

definition plain_key :: key where
  "plain_key =
     \<lparr>upArrow = False, downArrow = False, leftArrow = False, rightArrow = False,
      return = False, backspace = False, delete = False, tab = False, ctrl = False,
      shift = False\<rparr>"

text \<open>What a run of the handler does to the outside, in the order it does it.\<close>

datatype effect = SetState state | OnChange jsstring | OnSubmit jsstring

subsection \<open>Initial state and the two effects (lines 107-139)\<close>

definition initial_state :: "props \<Rightarrow> state" where
  "initial_state p =
     \<lparr>cursorOffset = int (length (originalValue p)), cursorWidth = 0, isHighlighted = False\<rparr>"

text \<open>The updater queued by the effect with dependencies \<open>[focus, highlightOnFocus]\<close>.\<close>

definition focus_effect :: "props \<Rightarrow> state \<Rightarrow> state" where
  "focus_effect p previousState =
     (if focus p \<and> highlightOnFocus p
      then previousState\<lparr>isHighlighted := True,
                         cursorOffset := int (length (originalValue p))\<rparr>
      else if \<not> focus p
      then previousState\<lparr>isHighlighted := False\<rparr>
      else previousState)"

text \<open>
  The effect with dependencies \<open>[originalValue, cursorOffset]\<close>. Its test reads the
  \<open>cursorOffset\<close> of the render that scheduled it; its updater is applied to the state
  at the time it runs.
\<close>

definition clamp_effect :: "props \<Rightarrow> int \<Rightarrow> state \<Rightarrow> state" where
  "clamp_effect p renderedCursorOffset previousState =
     (if renderedCursorOffset > int (length (originalValue p))
      then previousState\<lparr>cursorOffset := int (length (originalValue p))\<rparr>
      else previousState)"

subsection \<open>Rendering (lines 141-174, 271-275)\<close>

definition displayed_value :: "props \<Rightarrow> jsstring" where
  "displayed_value p =
     (case mask p of
        None \<Rightarrow> originalValue p
      | Some m \<Rightarrow> if m \<noteq> [] then repeat m (length (originalValue p)) else originalValue p)"

text \<open>The \<open>for ... of\<close> loop of lines 156-165, with its accumulator and counter.\<close>

fun cursor_loop :: "int \<Rightarrow> int \<Rightarrow> styled \<Rightarrow> int \<Rightarrow> jsstring list \<Rightarrow> styled" where
  "cursor_loop off width renderedValue i [] = renderedValue"
| "cursor_loop off width renderedValue i (char # chars) =
     cursor_loop off width
       (renderedValue @ (if i \<ge> off - width \<and> i \<le> off then chalk_inverse char else raw char))
       (i + 1) chars"

definition cursor_mode :: "props \<Rightarrow> state \<Rightarrow> bool" where
  "cursor_mode p st \<longleftrightarrow> showCursor p \<and> focus p \<and> \<not> isHighlighted st"

definition renderedValue :: "props \<Rightarrow> state \<Rightarrow> styled" where
  "renderedValue p st =
     (let cursorActualWidth = (if highlightPastedText p then cursorWidth st else 0);
          v = displayed_value p
      in if cursor_mode p st then
           cursor_loop (cursorOffset st) cursorActualWidth
             (if length v > 0 then [] else chalk_inverse (js '' '')) 0 (string_iterator v)
           @ (if length v > 0 \<and> cursorOffset st = int (length v)
              then chalk_inverse (js '' '') else [])
         else if isHighlighted st then chalk_inverse v
         else raw v)"

definition renderedPlaceholder :: "props \<Rightarrow> state \<Rightarrow> styled option" where
  "renderedPlaceholder p st =
     (if cursor_mode p st then
        Some (if length (placeholder p) > 0
              then chalk_inverse [placeholder p ! 0]
                   @ chalk_grey (slice (placeholder p) 1 (int (length (placeholder p))))
              else chalk_inverse (js '' ''))
      else if isHighlighted st then
        (if placeholder p \<noteq> [] then Some (chalk_inverse (placeholder p)) else None)
      else
        (if placeholder p \<noteq> [] then Some (chalk_grey (placeholder p)) else None))"

text \<open>The child of \<open>Text\<close>; \<open>None\<close> is \<open>undefined\<close>.\<close>

definition render :: "props \<Rightarrow> state \<Rightarrow> styled option" where
  "render p st =
     (if placeholder p \<noteq> []
      then (if length (displayed_value p) > 0 then Some (renderedValue p st)
            else renderedPlaceholder p st)
      else Some (renderedValue p st))"

subsection \<open>The key handler (lines 177-257)\<close>

text \<open>The events of lines 178-186, on which the handler returns at once.\<close>

definition ignored :: "jsstring \<Rightarrow> key \<Rightarrow> bool" where
  "ignored input k \<longleftrightarrow>
     upArrow k \<or> downArrow k \<or> (ctrl k \<and> input = js ''c'') \<or> tab k \<or> (shift k \<and> tab k)"

text \<open>
  Lines 196-252: the next state handed to \<open>setState\<close> and \<open>nextValue\<close>. The two final
  tests read \<open>cursorOffset\<close>, the offset before the event, as the source does.
\<close>

definition edit :: "props \<Rightarrow> state \<Rightarrow> jsstring \<Rightarrow> key \<Rightarrow> state \<times> jsstring" where
  "edit p st input k =
     (let v = originalValue p;
          len = int (length v);
          off = cursorOffset st;
          (nextCursorOffset, nextValue, nextCursorWidth, nextIsHighlighted) =
            (if leftArrow k then
               (if showCursor p then (off - 1, v, 0, False)
                else (off, v, 0, isHighlighted st))
             else if rightArrow k then
               (if showCursor p then (off + 1, v, 0, False)
                else (off, v, 0, isHighlighted st))
             else if backspace k \<or> delete k then
               (if off > 0
                then (off - 1, slice v 0 (off - 1) @ slice v off len, 0, False)
                else (off, v, 0, isHighlighted st))
             else
               (if isHighlighted st then int (length input) else off + int (length input),
                if isHighlighted st then input else slice v 0 off @ input @ slice v off len,
                if length input > 1 then int (length input) else 0,
                False));
          nextCursorOffset = (if off < 0 then 0 else nextCursorOffset);
          nextCursorOffset = (if off > len then len else nextCursorOffset)
      in (\<lparr>cursorOffset = nextCursorOffset, cursorWidth = nextCursorWidth,
           isHighlighted = nextIsHighlighted\<rparr>, nextValue))"

definition handler :: "props \<Rightarrow> state \<Rightarrow> jsstring \<Rightarrow> key \<Rightarrow> effect list" where
  "handler p st input k =
     (if ignored input k then []
      else if return k then (if onSubmit p then [OnSubmit (originalValue p)] else [])
      else (let (nextState, nextValue) = edit p st input k
            in SetState nextState
               # (if nextValue \<noteq> originalValue p then [OnChange nextValue] else [])))"

text \<open>\<open>useInput(handler, {isActive: focus})\<close>: the handler runs only while focused.\<close>

definition useInput :: "props \<Rightarrow> state \<Rightarrow> jsstring \<Rightarrow> key \<Rightarrow> effect list" where
  "useInput p st input k = (if focus p then handler p st input k else [])"

text \<open>The component state after a run of the handler: the last \<open>setState\<close> wins.\<close>

fun state_after :: "state \<Rightarrow> effect list \<Rightarrow> state" where
  "state_after st [] = st"
| "state_after st (SetState st' # es) = state_after st' es"
| "state_after st (_ # es) = state_after st es"

definition change_calls :: "effect list \<Rightarrow> jsstring list" where
  "change_calls es = concat (map (\<lambda>e. case e of OnChange s \<Rightarrow> [s] | _ \<Rightarrow> []) es)"

definition submit_calls :: "effect list \<Rightarrow> jsstring list" where
  "submit_calls es = concat (map (\<lambda>e. case e of OnSubmit s \<Rightarrow> [s] | _ \<Rightarrow> []) es)"

text \<open>
  The events that reach the last branch of the handler (lines 220-238), where \<open>input\<close>
  is inserted.
\<close>

definition reaches_input_branch :: "jsstring \<Rightarrow> key \<Rightarrow> bool" where
  "reaches_input_branch input k \<longleftrightarrow>
     \<not> ignored input k \<and> \<not> return k \<and> \<not> leftArrow k \<and> \<not> rightArrow k
     \<and> \<not> backspace k \<and> \<not> delete k"

subsection \<open>The component over time\<close>

text \<open>
  React runs an effect after the first render and after every render in which one of its
  dependencies differs from the previous render. After a render with new props the
  component is therefore reconciled as follows: the focus effect runs when \<open>focus\<close> or
  \<open>highlightOnFocus\<close> changed, and the clamp effect brings an offset beyond the end of
  the value back to the end. Ink runs the key handler inside one batched update, so the
  state set by the handler and the props the parent passes in answer to the callbacks
  reach the same render; a key press therefore carries those props.
\<close>

definition mount :: "props \<Rightarrow> state" where
  "mount p =
     (let st = initial_state p
      in clamp_effect p (cursorOffset st) (focus_effect p st))"

definition reconcile :: "props \<Rightarrow> props \<Rightarrow> state \<Rightarrow> state" where
  "reconcile prev p st =
     (let st' = (if focus p \<noteq> focus prev \<or> highlightOnFocus p \<noteq> highlightOnFocus prev
                 then focus_effect p st else st)
      in clamp_effect p (cursorOffset st) st')"

datatype event = KeyPress jsstring key props | NewProps props

fun component_step :: "props \<times> state \<Rightarrow> event \<Rightarrow> props \<times> state" where
  "component_step (p, st) (KeyPress input k p') =
     (p', reconcile p p' (state_after st (useInput p st input k)))"
| "component_step (p, st) (NewProps p') = (p', reconcile p p' st)"

definition run :: "props \<Rightarrow> event list \<Rightarrow> props \<times> state" where
  "run p evs = foldl component_step (p, mount p) evs"

subsection \<open>Invariants of the component\<close>

text \<open>
  Two predicates on a component (its current props and state): an unfocused component is
  not highlighted, and a highlighted component has its cursor inside the value.
\<close>

definition unfocused_plain :: "props \<times> state \<Rightarrow> bool" where
  "unfocused_plain c \<longleftrightarrow> focus (fst c) \<or> \<not> isHighlighted (snd c)"

definition highlight_in_range :: "props \<times> state \<Rightarrow> bool" where
  "highlight_in_range c \<longleftrightarrow>
     \<not> isHighlighted (snd c)
     \<or> (0 \<le> cursorOffset (snd c)
        \<and> cursorOffset (snd c) \<le> int (length (originalValue (fst c))))"

section \<open>Properties\<close>

subsection \<open>Strings\<close>

text \<open>
  Splitting a string at any index, in range or not, and joining the two slices gives the
  string back; for an index in range the slices are \<open>take\<close> and \<open>drop\<close>.
\<close>

lemma slice_split: "slice s 0 k @ slice s k (int (length s)) = s"
  by (auto simp: slice_def Let_def max_def min_def nat_add_distrib take_all)

lemma slice_prefix: "0 \<le> k \<Longrightarrow> k \<le> int (length s) \<Longrightarrow> slice s 0 k = take (nat k) s"
  by (simp add: slice_def Let_def min_def)

lemma slice_suffix: "0 \<le> k \<Longrightarrow> k \<le> int (length s) \<Longrightarrow> slice s k (int (length s)) = drop (nat k) s"
  by (simp add: slice_def Let_def min_def)

lemma length_splice:
  "length (slice s 0 k @ input @ slice s k (int (length s))) = length s + length input"
proof -
  have "length (slice s 0 k @ slice s k (int (length s))) = length s"
    by (simp only: slice_split)
  then show ?thesis by simp
qed

lemma splice_differs:
  "input \<noteq> [] \<Longrightarrow> slice s 0 k @ input @ slice s k (int (length s)) \<noteq> s"
proof
  assume "input \<noteq> []" and eq: "slice s 0 k @ input @ slice s k (int (length s)) = s"
  from eq have "length (slice s 0 k @ input @ slice s k (int (length s))) = length s" by simp
  then have "length input = 0" by (simp only: length_splice)
  with \<open>input \<noteq> []\<close> show False by simp
qed

subsection \<open>The handler, branch by branch\<close>

lemma edit_input_branch:
  "reaches_input_branch input k \<Longrightarrow>
   edit p st input k =
     (\<lparr>cursorOffset =
         (if cursorOffset st > int (length (originalValue p)) then int (length (originalValue p))
          else if cursorOffset st < 0 then 0
          else if isHighlighted st then int (length input)
          else cursorOffset st + int (length input)),
       cursorWidth = (if length input > 1 then int (length input) else 0),
       isHighlighted = False\<rparr>,
      if isHighlighted st then input
      else slice (originalValue p) 0 (cursorOffset st) @ input
           @ slice (originalValue p) (cursorOffset st) (int (length (originalValue p))))"
  by (simp add: edit_def reaches_input_branch_def Let_def)

lemma edit_arrow_value:
  "leftArrow k \<or> rightArrow k \<Longrightarrow> snd (edit p st input k) = originalValue p"
  by (auto simp: edit_def Let_def)

lemma handler_edit:
  "\<not> ignored input k \<Longrightarrow> \<not> return k \<Longrightarrow>
   handler p st input k =
     SetState (fst (edit p st input k))
     # (if snd (edit p st input k) \<noteq> originalValue p then [OnChange (snd (edit p st input k))] else [])"
  by (simp add: handler_def split: prod.splits)

lemma state_after_handler:
  "state_after st (handler p st input k) =
     (if ignored input k \<or> return k then st else fst (edit p st input k))"
  by (simp add: handler_def split: prod.splits)

lemma change_calls_handler:
  "change_calls (handler p st input k) =
     (if \<not> ignored input k \<and> \<not> return k \<and> snd (edit p st input k) \<noteq> originalValue p
      then [snd (edit p st input k)] else [])"
  by (simp add: handler_def change_calls_def split: prod.splits)

lemma handler_input_branch_highlighted:
  assumes "reaches_input_branch input k" and "isHighlighted st"
    and "0 \<le> cursorOffset st" and "cursorOffset st \<le> int (length (originalValue p))"
  shows "handler p st input k =
           SetState \<lparr>cursorOffset = int (length input),
                     cursorWidth = (if length input > 1 then int (length input) else 0),
                     isHighlighted = False\<rparr>
           # (if input \<noteq> originalValue p then [OnChange input] else [])"
proof -
  from assms(1) have "\<not> ignored input k" "\<not> return k"
    by (simp_all add: reaches_input_branch_def)
  then show ?thesis
    using assms by (simp add: handler_edit edit_input_branch)
qed

subsection \<open>Invariants over the life of the component\<close>

lemma isHighlighted_clamp_effect:
  "isHighlighted (clamp_effect p off st) = isHighlighted st"
  by (simp add: clamp_effect_def)

lemma focus_effect_unfocused: "\<not> focus p \<Longrightarrow> \<not> isHighlighted (focus_effect p st)"
  by (simp add: focus_effect_def)

lemma reconcile_unfocused:
  assumes "focus prev \<or> \<not> isHighlighted st"
  shows "focus p \<or> \<not> isHighlighted (reconcile prev p st)"
proof (cases "focus p")
  case True
  then show ?thesis by simp
next
  case False
  show ?thesis
  proof (cases "focus prev")
    case True
    with False have "reconcile prev p st = clamp_effect p (cursorOffset st) (focus_effect p st)"
      by (simp add: reconcile_def)
    with False show ?thesis
      by (simp add: isHighlighted_clamp_effect focus_effect_unfocused)
  next
    case unf: False
    with assms have "\<not> isHighlighted st" by simp
    with False show ?thesis
      by (simp add: reconcile_def Let_def isHighlighted_clamp_effect focus_effect_unfocused)
  qed
qed

lemma mount_unfocused: "unfocused_plain (p, mount p)"
  using focus_effect_unfocused [of p "initial_state p"]
  by (auto simp: unfocused_plain_def mount_def Let_def isHighlighted_clamp_effect)

lemma component_step_unfocused:
  assumes "unfocused_plain c"
  shows "unfocused_plain (component_step c ev)"
proof (cases c)
  case (Pair p st)
  with assms have inv: "focus p \<or> \<not> isHighlighted st" by (simp add: unfocused_plain_def)
  show ?thesis
  proof (cases ev)
    case (KeyPress input k p')
    have "focus p \<or> \<not> isHighlighted (state_after st (useInput p st input k))"
      using inv by (cases "focus p") (simp_all add: useInput_def)
    then show ?thesis
      using Pair KeyPress by (simp add: unfocused_plain_def reconcile_unfocused)
  next
    case (NewProps p')
    then show ?thesis
      using Pair inv by (simp add: unfocused_plain_def reconcile_unfocused)
  qed
qed

lemma foldl_component_step_unfocused:
  "unfocused_plain c \<Longrightarrow> unfocused_plain (foldl component_step c evs)"
  by (induction evs arbitrary: c) (simp_all add: component_step_unfocused)

lemma run_unfocused: "unfocused_plain (run p evs)"
  unfolding run_def by (rule foldl_component_step_unfocused) (rule mount_unfocused)

lemma edit_highlight_in_range:
  "highlight_in_range (p, st) \<Longrightarrow> highlight_in_range (p, fst (edit p st input k))"
  by (auto simp: edit_def Let_def highlight_in_range_def)

lemma useInput_highlight_in_range:
  "highlight_in_range (p, st) \<Longrightarrow>
   highlight_in_range (p, state_after st (useInput p st input k))"
  by (simp add: useInput_def state_after_handler edit_highlight_in_range)

lemma reconcile_highlight_in_range:
  "highlight_in_range (prev, st) \<Longrightarrow> highlight_in_range (p, reconcile prev p st)"
  by (auto simp: highlight_in_range_def reconcile_def Let_def focus_effect_def clamp_effect_def)

lemma mount_highlight_in_range: "highlight_in_range (p, mount p)"
  by (simp add: highlight_in_range_def mount_def Let_def focus_effect_def clamp_effect_def
      initial_state_def)

lemma component_step_highlight_in_range:
  "highlight_in_range c \<Longrightarrow> highlight_in_range (component_step c ev)"
proof (cases c)
  case (Pair p st)
  assume "highlight_in_range c"
  with Pair have inv: "highlight_in_range (p, st)" by simp
  show ?thesis
  proof (cases ev)
    case (KeyPress input k p')
    from inv have "highlight_in_range (p, state_after st (useInput p st input k))"
      by (rule useInput_highlight_in_range)
    then have "highlight_in_range (p', reconcile p p' (state_after st (useInput p st input k)))"
      by (rule reconcile_highlight_in_range)
    with Pair KeyPress show ?thesis by simp
  next
    case (NewProps p')
    from inv have "highlight_in_range (p', reconcile p p' st)"
      by (rule reconcile_highlight_in_range)
    with Pair NewProps show ?thesis by simp
  qed
qed

lemma run_highlight_in_range: "highlight_in_range (run p evs)"
proof -
  have "highlight_in_range c \<Longrightarrow> highlight_in_range (foldl component_step c evs)" for c
    by (induction evs arbitrary: c) (simp_all add: component_step_highlight_in_range)
  then show ?thesis by (simp add: run_def mount_highlight_in_range)
qed

subsection \<open>Stripping the styling of the rendered text\<close>

lemma strip_styles_append: "strip_styles (a @ b) = strip_styles a @ strip_styles b"
  by (induction a rule: strip_styles.induct) simp_all

lemma strip_styles_raw: "strip_styles (raw s) = s"
  by (induction s) (simp_all add: raw_def)

lemma strip_styles_chalk: "strip_styles (chalk sty s) = s"
  by (simp add: chalk_def strip_styles_append strip_styles_raw)

lemma concat_string_iterator: "concat (string_iterator s) = s"
  by (induction s rule: string_iterator.induct) simp_all

lemma strip_styles_cursor_loop:
  "strip_styles (cursor_loop off width acc i chars) = strip_styles acc @ concat chars"
  by (induction chars arbitrary: acc i)
     (simp_all add: strip_styles_append strip_styles_raw strip_styles_chalk chalk_inverse_def)

lemma strip_styles_renderedValue:
  "strip_styles (renderedValue p st) =
     (if cursor_mode p st \<and> displayed_value p = [] then js '' ''
      else if cursor_mode p st \<and> cursorOffset st = int (length (displayed_value p))
      then displayed_value p @ js '' ''
      else displayed_value p)"
  by (simp add: renderedValue_def Let_def strip_styles_append strip_styles_cursor_loop
      strip_styles_chalk strip_styles_raw chalk_inverse_def concat_string_iterator)

lemma first_and_rest: "s \<noteq> [] \<Longrightarrow> [s ! 0] @ slice s 1 (int (length s)) = s"
  by (cases s) (simp_all add: slice_def Let_def)

lemma strip_styles_renderedPlaceholder:
  assumes "placeholder p \<noteq> []"
  shows "map_option strip_styles (renderedPlaceholder p st) = Some (placeholder p)"
proof -
  have "strip_styles (chalk_inverse [placeholder p ! 0]
          @ chalk_grey (slice (placeholder p) 1 (int (length (placeholder p)))))
        = [placeholder p ! 0] @ slice (placeholder p) 1 (int (length (placeholder p)))"
    by (simp only: strip_styles_append strip_styles_chalk chalk_inverse_def chalk_grey_def)
  also have "\<dots> = placeholder p" using assms by (rule first_and_rest)
  finally show ?thesis
    using assms
    by (simp add: renderedPlaceholder_def strip_styles_chalk chalk_inverse_def chalk_grey_def)
qed

lemma length_repeat: "length (repeat m n) = length m * n"
  by (induction n) (simp_all add: repeat_def)

subsection \<open>Cursor range (C1)\<close>

text \<open>
  Claim C1 says that the offset set by every step of the handler lies between 0 and the
  length of the value. The handler does end with two range tests (lines 240-246), but they
  read \<open>cursorOffset\<close>, the offset before the event, where the offset just computed is
  \<open>nextCursorOffset\<close>. On the value \<open>abc\<close> a left arrow at offset 0 therefore sets the
  offset to -1, and a right arrow at offset 3 sets it to 4. The clamp effect repairs an
  offset beyond the end after the render, but not a negative one: a freshly mounted
  component with an empty value is left at offset -1 by one left arrow.
\<close>

theorem left_arrow_at_start_leaves_range:
  "handler (default_props (js ''abc''))
     \<lparr>cursorOffset = 0, cursorWidth = 0, isHighlighted = False\<rparr> []
     (plain_key\<lparr>leftArrow := True\<rparr>)
   = [SetState \<lparr>cursorOffset = - 1, cursorWidth = 0, isHighlighted = False\<rparr>]
   \<and> handler (default_props (js ''abc''))
     \<lparr>cursorOffset = 3, cursorWidth = 0, isHighlighted = False\<rparr> []
     (plain_key\<lparr>rightArrow := True\<rparr>)
   = [SetState \<lparr>cursorOffset = 4, cursorWidth = 0, isHighlighted = False\<rparr>]
   \<and> run (default_props [])
       [KeyPress [] (plain_key\<lparr>leftArrow := True\<rparr>) (default_props [])]
   = (default_props [], \<lparr>cursorOffset = - 1, cursorWidth = 0, isHighlighted = False\<rparr>)"
  by (simp add: handler_def ignored_def edit_def Let_def plain_key_def default_props_def js_def
      run_def mount_def reconcile_def useInput_def initial_state_def focus_effect_def
      clamp_effect_def)

subsection \<open>Typing one character (C2)\<close>

text \<open>
  Claim C2: with the cursor at an offset \<open>k\<close> between 0 and the length of the value, no
  highlight, and an event that reaches the input branch (no special key flag set), typing
  the single code unit \<open>c\<close> sets the state to offset \<open>k + 1\<close>, width 0, not highlighted,
  and the next value is the value with \<open>c\<close> inserted at \<open>k\<close>; the handler passes that
  value to \<open>onChange\<close>.
\<close>

theorem type_single_character:
  assumes "0 \<le> k" and "k \<le> int (length (originalValue p))"
    and "cursorOffset st = k" and "\<not> isHighlighted st"
    and "reaches_input_branch [c] key"
  shows "edit p st [c] key =
           (\<lparr>cursorOffset = k + 1, cursorWidth = 0, isHighlighted = False\<rparr>,
            take (nat k) (originalValue p) @ [c] @ drop (nat k) (originalValue p))
         \<and> handler p st [c] key =
           [SetState \<lparr>cursorOffset = k + 1, cursorWidth = 0, isHighlighted = False\<rparr>,
            OnChange (take (nat k) (originalValue p) @ [c] @ drop (nat k) (originalValue p))]"
proof -
  let ?v = "originalValue p"
  let ?nv = "take (nat k) ?v @ [c] @ drop (nat k) ?v"
  have e: "edit p st [c] key =
           (\<lparr>cursorOffset = k + 1, cursorWidth = 0, isHighlighted = False\<rparr>, ?nv)"
    using assms by (simp add: edit_input_branch slice_prefix slice_suffix)
  have "length ?nv = Suc (length ?v)" by simp
  then have ne: "?nv \<noteq> ?v" by (metis n_not_Suc_n)
  from assms(5) have "\<not> ignored [c] key" "\<not> return key"
    by (simp_all add: reaches_input_branch_def)
  then show ?thesis using e ne by (simp add: handler_edit)
qed

text \<open>
  Typing \<open>c\<close> at offset 2 of \<open>abd\<close>.
\<close>

theorem type_single_character_witness:
  "(0::int) \<le> 2
   \<and> 2 \<le> int (length (originalValue (default_props (js ''abd''))))
   \<and> cursorOffset \<lparr>cursorOffset = 2, cursorWidth = 0, isHighlighted = False\<rparr> = 2
   \<and> \<not> isHighlighted \<lparr>cursorOffset = 2, cursorWidth = 0, isHighlighted = False\<rparr>
   \<and> reaches_input_branch [0x63] plain_key
   \<and> handler (default_props (js ''abd''))
         \<lparr>cursorOffset = 2, cursorWidth = 0, isHighlighted = False\<rparr> [0x63] plain_key
       = [SetState \<lparr>cursorOffset = 3, cursorWidth = 0, isHighlighted = False\<rparr>,
          OnChange (js ''abcd'')]"
proof -
  let ?p = "default_props (js ''abd'')"
  let ?st = "\<lparr>cursorOffset = 2, cursorWidth = 0, isHighlighted = False\<rparr>"
  have h1: "(0::int) \<le> 2" by simp
  have h2: "2 \<le> int (length (originalValue ?p))" by (simp add: js_def default_props_def)
  have h3: "cursorOffset ?st = 2" by simp
  have h4: "\<not> isHighlighted ?st" by simp
  have h5: "reaches_input_branch [0x63] plain_key"
    by (simp add: reaches_input_branch_def ignored_def plain_key_def)
  from type_single_character [OF h1 h2 h3 h4 h5] h1 h2 h3 h4 h5
  show ?thesis by (simp add: js_def default_props_def)
qed

subsection \<open>Typing over a highlighted value (C3)\<close>

text \<open>
  Claim C3, amended. When the value is highlighted, the offset lies inside the value and an
  event reaches the input branch, the handler calls \<open>setState\<close> with offset the length
  of the input, the paste width of the input and no highlight, and then calls
  \<open>onChange\<close> with the input alone, unless the input equals the current value (first
  conjunct). Every highlighted state the component reaches from mount is such a state and
  is focused, so there \<open>useInput\<close> does the same (second conjunct); so it does when the
  key press is the first event after the focus effect has run with \<open>focus\<close> and
  \<open>highlightOnFocus\<close> set (third conjunct). In every highlighted state, whatever the
  offset, the input alone is what \<open>onChange\<close> receives and the highlight is cleared
  (fourth conjunct). A key press that arrives after the highlight has been cleared is not
  covered: see the counterexample.
\<close>

theorem highlighted_input_replaces_value:
  assumes "reaches_input_branch input k"
  shows "(isHighlighted st \<and> 0 \<le> cursorOffset st
            \<and> cursorOffset st \<le> int (length (originalValue p)) \<longrightarrow>
            handler p st input k =
              SetState \<lparr>cursorOffset = int (length input),
                        cursorWidth = (if length input > 1 then int (length input) else 0),
                        isHighlighted = False\<rparr>
              # (if input \<noteq> originalValue p then [OnChange input] else []))
       \<and> (isHighlighted (snd (run p0 evs)) \<longrightarrow>
            useInput (fst (run p0 evs)) (snd (run p0 evs)) input k =
              SetState \<lparr>cursorOffset = int (length input),
                        cursorWidth = (if length input > 1 then int (length input) else 0),
                        isHighlighted = False\<rparr>
              # (if input \<noteq> originalValue (fst (run p0 evs)) then [OnChange input] else []))
       \<and> (focus p \<and> highlightOnFocus p \<longrightarrow>
            useInput p (focus_effect p st0) input k =
              SetState \<lparr>cursorOffset = int (length input),
                        cursorWidth = (if length input > 1 then int (length input) else 0),
                        isHighlighted = False\<rparr>
              # (if input \<noteq> originalValue p then [OnChange input] else []))
       \<and> (isHighlighted st \<longrightarrow>
            change_calls (handler p st input k) =
              (if input \<noteq> originalValue p then [input] else [])
            \<and> \<not> isHighlighted (state_after st (handler p st input k)))"
proof -
  let ?r = "SetState \<lparr>cursorOffset = int (length input),
                        cursorWidth = (if length input > 1 then int (length input) else 0),
                        isHighlighted = False\<rparr>"
  have c1: "isHighlighted st \<and> 0 \<le> cursorOffset st
      \<and> cursorOffset st \<le> int (length (originalValue p)) \<longrightarrow>
      handler p st input k = ?r # (if input \<noteq> originalValue p then [OnChange input] else [])"
    for p st
    using handler_input_branch_highlighted [OF assms, of st p] by blast
  let ?p = "fst (run p0 evs)" and ?s = "snd (run p0 evs)"
  have "highlight_in_range (?p, ?s)" using run_highlight_in_range [of p0 evs] by simp
  then have rng: "isHighlighted ?s \<longrightarrow>
      0 \<le> cursorOffset ?s \<and> cursorOffset ?s \<le> int (length (originalValue ?p))"
    by (auto simp: highlight_in_range_def)
  have "unfocused_plain (?p, ?s)" using run_unfocused [of p0 evs] by simp
  then have foc: "isHighlighted ?s \<longrightarrow> focus ?p" by (auto simp: unfocused_plain_def)
  have c2: "isHighlighted ?s \<longrightarrow>
      useInput ?p ?s input k = ?r # (if input \<noteq> originalValue ?p then [OnChange input] else [])"
  proof
    assume h: "isHighlighted ?s"
    with foc have "useInput ?p ?s input k = handler ?p ?s input k" by (simp add: useInput_def)
    also from h rng c1 [of ?s ?p]
    have "\<dots> = ?r # (if input \<noteq> originalValue ?p then [OnChange input] else [])" by blast
    finally show "useInput ?p ?s input k
        = ?r # (if input \<noteq> originalValue ?p then [OnChange input] else [])" .
  qed
  have c3: "focus p \<and> highlightOnFocus p \<longrightarrow>
      useInput p (focus_effect p st0) input k
        = ?r # (if input \<noteq> originalValue p then [OnChange input] else [])"
  proof
    assume h: "focus p \<and> highlightOnFocus p"
    then have "isHighlighted (focus_effect p st0) \<and> 0 \<le> cursorOffset (focus_effect p st0)
        \<and> cursorOffset (focus_effect p st0) \<le> int (length (originalValue p))"
      by (simp add: focus_effect_def)
    with c1 [of "focus_effect p st0" p]
    have "handler p (focus_effect p st0) input k
        = ?r # (if input \<noteq> originalValue p then [OnChange input] else [])" by blast
    with h show "useInput p (focus_effect p st0) input k
        = ?r # (if input \<noteq> originalValue p then [OnChange input] else [])"
      by (simp add: useInput_def)
  qed
  from assms have ni: "\<not> ignored input k" "\<not> return k"
    by (simp_all add: reaches_input_branch_def)
  have c4: "isHighlighted st \<longrightarrow>
      change_calls (handler p st input k) = (if input \<noteq> originalValue p then [input] else [])
      \<and> \<not> isHighlighted (state_after st (handler p st input k))"
    using assms ni by (simp add: change_calls_handler state_after_handler edit_input_branch)
  from c1 [of st p] c2 c3 c4 show ?thesis by blast
qed

text \<open>
  Pasting \<open>xy\<close> over the highlighted value \<open>abc\<close>: in a given highlighted state, in
  the state reached by mounting with \<open>highlightOnFocus\<close>, and after the focus effect.
\<close>

theorem highlighted_input_replaces_value_witness:
  "reaches_input_branch (js ''xy'') plain_key
   \<and> isHighlighted \<lparr>cursorOffset = 3, cursorWidth = 0, isHighlighted = True\<rparr>
   \<and> (0::int) \<le> cursorOffset \<lparr>cursorOffset = 3, cursorWidth = 0, isHighlighted = True\<rparr>
   \<and> cursorOffset \<lparr>cursorOffset = 3, cursorWidth = 0, isHighlighted = True\<rparr>
       \<le> int (length (originalValue ((default_props (js ''abc''))\<lparr>highlightOnFocus := True\<rparr>)))
   \<and> isHighlighted (snd (run ((default_props (js ''abc''))\<lparr>highlightOnFocus := True\<rparr>) []))
   \<and> focus ((default_props (js ''abc''))\<lparr>highlightOnFocus := True\<rparr>)
   \<and> highlightOnFocus ((default_props (js ''abc''))\<lparr>highlightOnFocus := True\<rparr>)
   \<and> handler ((default_props (js ''abc''))\<lparr>highlightOnFocus := True\<rparr>)
         \<lparr>cursorOffset = 3, cursorWidth = 0, isHighlighted = True\<rparr> (js ''xy'') plain_key
       = [SetState \<lparr>cursorOffset = 2, cursorWidth = 2, isHighlighted = False\<rparr>,
          OnChange (js ''xy'')]
   \<and> useInput (fst (run ((default_props (js ''abc''))\<lparr>highlightOnFocus := True\<rparr>) []))
         (snd (run ((default_props (js ''abc''))\<lparr>highlightOnFocus := True\<rparr>) []))
         (js ''xy'') plain_key
       = [SetState \<lparr>cursorOffset = 2, cursorWidth = 2, isHighlighted = False\<rparr>,
          OnChange (js ''xy'')]
   \<and> useInput ((default_props (js ''abc''))\<lparr>highlightOnFocus := True\<rparr>)
         (focus_effect ((default_props (js ''abc''))\<lparr>highlightOnFocus := True\<rparr>)
            \<lparr>cursorOffset = 1, cursorWidth = 0, isHighlighted = False\<rparr>)
         (js ''xy'') plain_key
       = [SetState \<lparr>cursorOffset = 2, cursorWidth = 2, isHighlighted = False\<rparr>,
          OnChange (js ''xy'')]
   \<and> change_calls (handler ((default_props (js ''abc''))\<lparr>highlightOnFocus := True\<rparr>)
         \<lparr>cursorOffset = 3, cursorWidth = 0, isHighlighted = True\<rparr> (js ''xy'') plain_key)
       = [js ''xy'']"
proof -
  let ?p = "(default_props (js ''abc''))\<lparr>highlightOnFocus := True\<rparr>"
  let ?st = "\<lparr>cursorOffset = 3, cursorWidth = 0, isHighlighted = True\<rparr>"
  let ?prev = "\<lparr>cursorOffset = 1, cursorWidth = 0, isHighlighted = False\<rparr>"
  let ?r = "SetState \<lparr>cursorOffset = int (length (js ''xy'')),
              cursorWidth = (if length (js ''xy'') > 1 then int (length (js ''xy'')) else 0),
              isHighlighted = False\<rparr>"
  let ?out = "[SetState \<lparr>cursorOffset = 2, cursorWidth = 2, isHighlighted = False\<rparr>,
               OnChange (js ''xy'')]"
  have h: "reaches_input_branch (js ''xy'') plain_key"
    by (simp add: reaches_input_branch_def ignored_def plain_key_def js_def)
  have a: "isHighlighted ?st \<and> 0 \<le> cursorOffset ?st
           \<and> cursorOffset ?st \<le> int (length (originalValue ?p))"
    by (simp add: default_props_def js_def)
  have b: "focus ?p \<and> highlightOnFocus ?p" by (simp add: default_props_def)
  have c: "isHighlighted (snd (run ?p []))"
    by (simp add: run_def mount_def Let_def focus_effect_def clamp_effect_def
        initial_state_def default_props_def)
  have v: "fst (run ?p []) = ?p" by (simp add: run_def)
  have r: "?r # (if js ''xy'' \<noteq> originalValue ?p then [OnChange (js ''xy'')] else []) = ?out"
    by (simp add: js_def default_props_def)
  note t = highlighted_input_replaces_value
             [OF h, where st = ?st and p = ?p and ?st0.0 = ?prev and ?p0.0 = ?p and evs = "[]"]
  from t a have "handler ?p ?st (js ''xy'') plain_key
      = ?r # (if js ''xy'' \<noteq> originalValue ?p then [OnChange (js ''xy'')] else [])" by blast
  with r have e1: "handler ?p ?st (js ''xy'') plain_key = ?out" by simp
  from t c have "useInput (fst (run ?p [])) (snd (run ?p [])) (js ''xy'') plain_key
      = ?r # (if js ''xy'' \<noteq> originalValue (fst (run ?p [])) then [OnChange (js ''xy'')] else [])"
    by blast
  with r v have e2: "useInput (fst (run ?p [])) (snd (run ?p [])) (js ''xy'') plain_key = ?out"
    by simp
  from t b have "useInput ?p (focus_effect ?p ?prev) (js ''xy'') plain_key
      = ?r # (if js ''xy'' \<noteq> originalValue ?p then [OnChange (js ''xy'')] else [])" by blast
  with r have e3: "useInput ?p (focus_effect ?p ?prev) (js ''xy'') plain_key = ?out" by simp
  from t a have "change_calls (handler ?p ?st (js ''xy'') plain_key)
      = (if js ''xy'' \<noteq> originalValue ?p then [js ''xy''] else [])" by blast
  then have e4: "change_calls (handler ?p ?st (js ''xy'') plain_key) = [js ''xy'']"
    by (simp add: js_def default_props_def)
  from h a b c e1 e2 e3 e4 show ?thesis by (simp only: simp_thms)
qed

text \<open>
  The claim as written fails when another key comes first: mounted with \<open>focus\<close> and
  \<open>highlightOnFocus\<close> on the value \<open>abc\<close>, a left arrow clears the highlight and
  moves the cursor to offset 2, and the first printable key after it, \<open>x\<close>, is inserted:
  \<open>onChange\<close> receives \<open>abxc\<close>.
\<close>

theorem printable_key_after_arrow_counterexample:
  "focus ((default_props (js ''abc''))\<lparr>highlightOnFocus := True\<rparr>)
   \<and> highlightOnFocus ((default_props (js ''abc''))\<lparr>highlightOnFocus := True\<rparr>)
   \<and> isHighlighted (mount ((default_props (js ''abc''))\<lparr>highlightOnFocus := True\<rparr>))
   \<and> snd (run ((default_props (js ''abc''))\<lparr>highlightOnFocus := True\<rparr>)
         [KeyPress [] (plain_key\<lparr>leftArrow := True\<rparr>)
            ((default_props (js ''abc''))\<lparr>highlightOnFocus := True\<rparr>)])
       = \<lparr>cursorOffset = 2, cursorWidth = 0, isHighlighted = False\<rparr>
   \<and> useInput ((default_props (js ''abc''))\<lparr>highlightOnFocus := True\<rparr>)
         \<lparr>cursorOffset = 2, cursorWidth = 0, isHighlighted = False\<rparr> (js ''x'') plain_key
       = [SetState \<lparr>cursorOffset = 3, cursorWidth = 0, isHighlighted = False\<rparr>,
          OnChange (js ''abxc'')]"
  by (simp add: run_def mount_def reconcile_def useInput_def handler_def ignored_def edit_def
      Let_def focus_effect_def clamp_effect_def initial_state_def plain_key_def
      default_props_def js_def slice_def)

subsection \<open>Return (C4)\<close>

text \<open>
  Claim C4: on a return key event that is not one of the ignored events, and with an
  \<open>onSubmit\<close> callback supplied, the handler does exactly one thing: it calls
  \<open>onSubmit\<close> with the current value. It does not call \<open>setState\<close>, so the state is
  unchanged, and it does not call \<open>onChange\<close>.
\<close>

theorem return_submits_current_value:
  assumes "return k" and "\<not> ignored input k" and "onSubmit p"
  shows "handler p st input k = [OnSubmit (originalValue p)]
       \<and> submit_calls (handler p st input k) = [originalValue p]
       \<and> change_calls (handler p st input k) = []
       \<and> state_after st (handler p st input k) = st"
  using assms by (simp add: handler_def submit_calls_def change_calls_def)

text \<open>
  Return on the value \<open>query\<close>.
\<close>

theorem return_submits_current_value_witness:
  "return (plain_key\<lparr>return := True\<rparr>)
   \<and> \<not> ignored [0x0D] (plain_key\<lparr>return := True\<rparr>)
   \<and> onSubmit ((default_props (js ''query''))\<lparr>onSubmit := True\<rparr>)
   \<and> handler ((default_props (js ''query''))\<lparr>onSubmit := True\<rparr>)
        \<lparr>cursorOffset = 5, cursorWidth = 0, isHighlighted = False\<rparr>
        [0x0D] (plain_key\<lparr>return := True\<rparr>)
       = [OnSubmit (js ''query'')]"
proof -
  have h1: "return (plain_key\<lparr>return := True\<rparr>)" by simp
  have h2: "\<not> ignored [0x0D] (plain_key\<lparr>return := True\<rparr>)"
    by (simp add: ignored_def plain_key_def)
  have h3: "onSubmit ((default_props (js ''query''))\<lparr>onSubmit := True\<rparr>)" by simp
  from return_submits_current_value [OF h1 h2 h3] h1 h2 h3
  show ?thesis by (simp add: default_props_def)
qed

subsection \<open>When onChange is called (C5)\<close>

text \<open>
  Claim C5, amended. For every event, \<open>onChange\<close> is called exactly when the event is
  neither ignored nor a return and the next value differs from the current one, and then
  once, with the next value. It is never called for a left or right arrow. An empty input
  that reaches the input branch causes no call when the value is not highlighted. (When
  the value is highlighted, the empty input replaces it: see the counterexample.)
\<close>

theorem change_callback_when_value_differs:
  "change_calls (handler p st input k) =
     (if \<not> ignored input k \<and> \<not> return k \<and> snd (edit p st input k) \<noteq> originalValue p
      then [snd (edit p st input k)] else [])
   \<and> (leftArrow k \<or> rightArrow k \<longrightarrow> change_calls (handler p st input k) = [])
   \<and> (reaches_input_branch [] k' \<and> \<not> isHighlighted st \<longrightarrow>
        change_calls (handler p st [] k') = [])"
proof -
  have "snd (edit p st [] k') = originalValue p"
    if "reaches_input_branch [] k'" "\<not> isHighlighted st"
    using that by (simp add: edit_input_branch slice_split)
  then show ?thesis
    by (simp add: change_calls_handler edit_arrow_value)
qed

text \<open>
  A left arrow, and an empty input with no flag, on the value \<open>abc\<close> without
  highlight.
\<close>

theorem change_callback_when_value_differs_witness:
  "(leftArrow (plain_key\<lparr>leftArrow := True\<rparr>) \<or> rightArrow (plain_key\<lparr>leftArrow := True\<rparr>))
   \<and> reaches_input_branch [] plain_key
   \<and> \<not> isHighlighted \<lparr>cursorOffset = 1, cursorWidth = 0, isHighlighted = False\<rparr>
   \<and> change_calls (handler (default_props (js ''abc''))
         \<lparr>cursorOffset = 1, cursorWidth = 0, isHighlighted = False\<rparr> (js ''x'')
         (plain_key\<lparr>leftArrow := True\<rparr>)) = []
   \<and> change_calls (handler (default_props (js ''abc''))
         \<lparr>cursorOffset = 1, cursorWidth = 0, isHighlighted = False\<rparr> [] plain_key) = []"
proof -
  let ?p = "default_props (js ''abc'')"
  let ?st = "\<lparr>cursorOffset = 1, cursorWidth = 0, isHighlighted = False\<rparr>"
  let ?left = "plain_key\<lparr>leftArrow := True\<rparr>"
  have h1: "leftArrow ?left \<or> rightArrow ?left" by simp
  have h2: "reaches_input_branch [] plain_key"
    by (simp add: reaches_input_branch_def ignored_def plain_key_def js_def)
  have h3: "\<not> isHighlighted ?st" by simp
  note t = change_callback_when_value_differs
             [where p = ?p and st = ?st and input = "js ''x''" and k = ?left and k' = plain_key]
  from t h1 have c1: "change_calls (handler ?p ?st (js ''x'') ?left) = []" by blast
  from t h2 h3 have c2: "change_calls (handler ?p ?st [] plain_key) = []" by blast
  from h1 h2 h3 c1 c2 show ?thesis by (simp only: simp_thms)
qed

text \<open>
  The claim as written fails for an empty input with no flag set when the value is
  highlighted: the value \<open>abc\<close> is replaced by the empty string and \<open>onChange\<close> is
  called with it.
\<close>

theorem empty_input_on_highlighted_value_counterexample:
  "change_calls (handler (default_props (js ''abc''))
      \<lparr>cursorOffset = 3, cursorWidth = 0, isHighlighted = True\<rparr> [] plain_key) = [[]]"
  by (simp add: handler_def change_calls_def ignored_def edit_def Let_def plain_key_def
      default_props_def js_def)

subsection \<open>Backspace at the start (C6)\<close>

text \<open>
  Claim C6, amended. With the cursor at offset 0, a backspace or delete event (not ignored,
  not a return, no arrow flag) leaves the value, the offset and the highlight as they are
  and calls no \<open>onChange\<close>; the handler still calls \<open>setState\<close>, with
  \<open>cursorWidth\<close> reset to 0, so the state is unchanged only if the width was 0 already.
\<close>

theorem backspace_at_start_keeps_value:
  assumes "cursorOffset st = 0" and "backspace k \<or> delete k"
    and "\<not> ignored input k" and "\<not> return k" and "\<not> leftArrow k" and "\<not> rightArrow k"
  shows "handler p st input k = [SetState (st\<lparr>cursorWidth := 0\<rparr>)]
       \<and> change_calls (handler p st input k) = []
       \<and> cursorOffset (state_after st (handler p st input k)) = cursorOffset st
       \<and> isHighlighted (state_after st (handler p st input k)) = isHighlighted st
       \<and> cursorWidth (state_after st (handler p st input k)) = 0"
proof -
  have "edit p st input k = (st\<lparr>cursorWidth := 0\<rparr>, originalValue p)"
    using assms by (auto simp: edit_def Let_def)
  then show ?thesis using assms by (simp add: handler_edit change_calls_def)
qed

text \<open>
  Backspace at offset 0 with a paste width of 2.
\<close>

theorem backspace_at_start_keeps_value_witness:
  "cursorOffset \<lparr>cursorOffset = 0, cursorWidth = 2, isHighlighted = False\<rparr> = 0
   \<and> (backspace (plain_key\<lparr>backspace := True\<rparr>) \<or> delete (plain_key\<lparr>backspace := True\<rparr>))
   \<and> \<not> ignored [] (plain_key\<lparr>backspace := True\<rparr>)
   \<and> \<not> return (plain_key\<lparr>backspace := True\<rparr>)
   \<and> \<not> leftArrow (plain_key\<lparr>backspace := True\<rparr>)
   \<and> \<not> rightArrow (plain_key\<lparr>backspace := True\<rparr>)
   \<and> handler (default_props (js ''abxyc''))
        \<lparr>cursorOffset = 0, cursorWidth = 2, isHighlighted = False\<rparr> []
        (plain_key\<lparr>backspace := True\<rparr>)
       = [SetState \<lparr>cursorOffset = 0, cursorWidth = 0, isHighlighted = False\<rparr>]"
proof -
  let ?st = "\<lparr>cursorOffset = 0, cursorWidth = 2, isHighlighted = False\<rparr>"
  let ?k = "plain_key\<lparr>backspace := True\<rparr>"
  have h1: "cursorOffset ?st = 0" by simp
  have h2: "backspace ?k \<or> delete ?k" by simp
  have h3: "\<not> ignored [] ?k" by (simp add: ignored_def plain_key_def js_def)
  have h4: "\<not> return ?k" and h5: "\<not> leftArrow ?k" and h6: "\<not> rightArrow ?k"
    by (simp_all add: plain_key_def)
  from backspace_at_start_keeps_value [OF h1 h2 h3 h4 h5 h6] h1 h2 h3 h4 h5 h6
  show ?thesis by simp
qed

text \<open>
  The claim as written fails in the same state: the state after the event differs from
  the state before it.
\<close>

theorem backspace_at_start_counterexample:
  "state_after \<lparr>cursorOffset = 0, cursorWidth = 2, isHighlighted = False\<rparr>
     (handler (default_props (js ''abxyc''))
        \<lparr>cursorOffset = 0, cursorWidth = 2, isHighlighted = False\<rparr> []
        (plain_key\<lparr>backspace := True\<rparr>))
   \<noteq> \<lparr>cursorOffset = 0, cursorWidth = 2, isHighlighted = False\<rparr>"
  by (simp add: handler_def ignored_def edit_def Let_def js_def default_props_def plain_key_def)

subsection \<open>Masking (C7)\<close>

text \<open>
  Claim C7, amended. With a non-empty mask \<open>m\<close> the displayed value is \<open>m\<close> repeated
  once per code unit of the value; its length is the length of \<open>m\<close> times the length of
  the value, which is the length of the value when \<open>m\<close> is a single code unit.
\<close>

theorem mask_repeated_per_code_unit:
  assumes "mask p = Some m" and "m \<noteq> []"
  shows "displayed_value p = concat (replicate (length (originalValue p)) m)
       \<and> length (displayed_value p) = length m * length (originalValue p)
       \<and> (length m = 1 \<longrightarrow> length (displayed_value p) = length (originalValue p))"
  using assms by (simp add: displayed_value_def length_repeat) (simp add: repeat_def)

text \<open>
  The mask \<open>*\<close> on \<open>Hello\<close>.
\<close>

theorem mask_repeated_per_code_unit_witness:
  "mask ((default_props (js ''Hello''))\<lparr>mask := Some (js ''*'')\<rparr>) = Some (js ''*'')
   \<and> js ''*'' \<noteq> []
   \<and> length (js ''*'') = 1
   \<and> displayed_value ((default_props (js ''Hello''))\<lparr>mask := Some (js ''*'')\<rparr>) = js ''*****''
   \<and> length (displayed_value ((default_props (js ''Hello''))\<lparr>mask := Some (js ''*'')\<rparr>))
       = length (originalValue ((default_props (js ''Hello''))\<lparr>mask := Some (js ''*'')\<rparr>))"
proof -
  let ?p = "(default_props (js ''Hello''))\<lparr>mask := Some (js ''*'')\<rparr>"
  have h1: "mask ?p = Some (js ''*'')" by simp
  have h2: "js ''*'' \<noteq> []" by (simp add: js_def)
  have h3: "length (js ''*'') = 1" by (simp add: js_def)
  note t = mask_repeated_per_code_unit [OF h1 h2]
  from t have "displayed_value ?p = concat (replicate (length (originalValue ?p)) (js ''*''))"
    by blast
  then have d: "displayed_value ?p = js ''*****''"
    by (simp add: default_props_def js_def numeral_eq_Suc)
  from t h3 have l: "length (displayed_value ?p) = length (originalValue ?p)" by blast
  from h1 h2 h3 d l show ?thesis by (simp only: simp_thms)
qed

text \<open>
  The claim as written fails for a mask of two code units: \<open>x\<close> masked by \<open>ab\<close>
  is displayed with length 2.
\<close>

theorem two_unit_mask_counterexample:
  "length (displayed_value ((default_props (js ''x''))\<lparr>mask := Some (js ''ab'')\<rparr>))
   \<noteq> length (originalValue ((default_props (js ''x''))\<lparr>mask := Some (js ''ab'')\<rparr>))"
  by (simp add: displayed_value_def repeat_def default_props_def js_def)

subsection \<open>Rendering and stripping (C8)\<close>

text \<open>
  Claim C8, amended. Stripping the styling markers from the rendered text gives the
  displayed (masked) value, with three exceptions: when the displayed value is empty and
  a placeholder is set, it gives the placeholder; in cursor mode with an empty displayed
  value and no placeholder, it gives one space; in cursor mode with the cursor at the end
  of a non-empty displayed value, it gives the displayed value followed by one space.
\<close>

theorem stripped_render:
  "map_option strip_styles (render p st) =
     Some (if displayed_value p = [] \<and> placeholder p \<noteq> [] then placeholder p
           else if cursor_mode p st \<and> displayed_value p = [] then js '' ''
           else if cursor_mode p st \<and> cursorOffset st = int (length (displayed_value p))
           then displayed_value p @ js '' ''
           else displayed_value p)"
proof (cases "displayed_value p = [] \<and> placeholder p \<noteq> []")
  case True
  then have "render p st = renderedPlaceholder p st" by (simp add: render_def)
  with True show ?thesis by (simp add: strip_styles_renderedPlaceholder)
next
  case False
  then have "render p st = Some (renderedValue p st)" by (auto simp: render_def)
  with False show ?thesis by (simp only: option.map strip_styles_renderedValue if_False)
qed

text \<open>
  The claim as written fails for the value \<open>abc\<close> with the cursor at its end: the
  stripped text has the trailing space of the fake cursor.
\<close>

theorem cursor_at_end_counterexample:
  "map_option strip_styles
     (render (default_props (js ''abc''))
        \<lparr>cursorOffset = 3, cursorWidth = 0, isHighlighted = False\<rparr>)
   = Some (js ''abc '')
   \<and> displayed_value (default_props (js ''abc'')) = js ''abc''"
  by (simp add: render_def renderedValue_def displayed_value_def cursor_mode_def Let_def
      default_props_def js_def chalk_inverse_def chalk_def raw_def
      is_high_surrogate_def is_low_surrogate_def)

subsection \<open>Losing focus (C9)\<close>

text \<open>
  Claim C9: the focus effect run with \<open>focus\<close> false leaves the state not highlighted,
  whatever the state and \<open>highlightOnFocus\<close>; so does the reconciliation after a render
  in which \<open>focus\<close> went from true to false; and in every state the component reaches
  from mount, through any sequence of key presses and new props, an unfocused component
  is not highlighted.
\<close>

theorem losing_focus_clears_highlight:
  "(\<not> focus p \<longrightarrow> \<not> isHighlighted (focus_effect p st))
   \<and> (focus prev \<and> \<not> focus p \<longrightarrow> \<not> isHighlighted (reconcile prev p st))
   \<and> (\<not> focus (fst (run p0 evs)) \<longrightarrow> \<not> isHighlighted (snd (run p0 evs)))"
proof -
  have "unfocused_plain (run p0 evs)"
    unfolding run_def by (rule foldl_component_step_unfocused) (rule mount_unfocused)
  then have "\<not> focus (fst (run p0 evs)) \<longrightarrow> \<not> isHighlighted (snd (run p0 evs))"
    by (auto simp: unfocused_plain_def)
  moreover have "focus prev \<and> \<not> focus p \<longrightarrow> \<not> isHighlighted (reconcile prev p st)"
    using reconcile_unfocused [of prev st p] by blast
  ultimately show ?thesis by (simp add: focus_effect_unfocused)
qed

text \<open>
  A component mounted with \<open>highlightOnFocus\<close> is highlighted; taking the focus away
  clears the highlight.
\<close>

theorem losing_focus_clears_highlight_witness:
  "\<not> focus ((default_props (js ''abc''))\<lparr>focus := False, highlightOnFocus := True\<rparr>)
   \<and> focus ((default_props (js ''abc''))\<lparr>highlightOnFocus := True\<rparr>)
   \<and> \<not> focus (fst (run ((default_props (js ''abc''))\<lparr>highlightOnFocus := True\<rparr>)
         [NewProps ((default_props (js ''abc''))\<lparr>focus := False, highlightOnFocus := True\<rparr>)]))
   \<and> isHighlighted (mount ((default_props (js ''abc''))\<lparr>highlightOnFocus := True\<rparr>))
   \<and> \<not> isHighlighted
        (focus_effect ((default_props (js ''abc''))\<lparr>focus := False, highlightOnFocus := True\<rparr>)
           (mount ((default_props (js ''abc''))\<lparr>highlightOnFocus := True\<rparr>)))
   \<and> \<not> isHighlighted
        (reconcile ((default_props (js ''abc''))\<lparr>highlightOnFocus := True\<rparr>)
           ((default_props (js ''abc''))\<lparr>focus := False, highlightOnFocus := True\<rparr>)
           (mount ((default_props (js ''abc''))\<lparr>highlightOnFocus := True\<rparr>)))
   \<and> \<not> isHighlighted (snd (run ((default_props (js ''abc''))\<lparr>highlightOnFocus := True\<rparr>)
         [NewProps ((default_props (js ''abc''))\<lparr>focus := False, highlightOnFocus := True\<rparr>)]))"
proof -
  let ?on = "(default_props (js ''abc''))\<lparr>highlightOnFocus := True\<rparr>"
  let ?off = "(default_props (js ''abc''))\<lparr>focus := False, highlightOnFocus := True\<rparr>"
  have h1: "\<not> focus ?off" by simp
  have h2: "focus ?on" by (simp add: default_props_def)
  have h3: "\<not> focus (fst (run ?on [NewProps ?off]))" by (simp add: run_def)
  have h4: "isHighlighted (mount ?on)"
    by (simp add: mount_def Let_def clamp_effect_def focus_effect_def initial_state_def
        default_props_def)
  note t = losing_focus_clears_highlight
             [where p = ?off and prev = ?on and st = "mount ?on" and ?p0.0 = ?on
              and evs = "[NewProps ?off]"]
  from t h1 have c1: "\<not> isHighlighted (focus_effect ?off (mount ?on))" by blast
  from t h1 h2 have c2: "\<not> isHighlighted (reconcile ?on ?off (mount ?on))" by blast
  from t h3 have c3: "\<not> isHighlighted (snd (run ?on [NewProps ?off]))" by blast
  from h1 h2 h3 h4 c1 c2 c3 show ?thesis by (simp only: simp_thms)
qed

subsection \<open>Ctrl with a letter (C10)\<close>

text \<open>
  Claim C10, amended. Take a key event with \<open>ctrl\<close> set and no other flag read by the
  handler set. It is ignored exactly when its input is \<open>c\<close>, and then the handler does
  nothing. With any other input, in particular a letter other than \<open>c\<close>, it reaches the
  input branch: the next value is the input alone when the value is highlighted, and
  otherwise the value with the input inserted at the cursor; the handler calls
  \<open>setState\<close> and then \<open>onChange\<close> with the next value unless that equals the current
  value. For a non-empty input such as a letter the next value always differs when the
  value is not highlighted; when it is highlighted, it differs unless the value already
  equals the input.
\<close>

theorem ctrl_letter_is_inserted:
  assumes "ctrl k"
    and "\<not> upArrow k" and "\<not> downArrow k" and "\<not> tab k" and "\<not> return k"
    and "\<not> leftArrow k" and "\<not> rightArrow k" and "\<not> backspace k" and "\<not> delete k"
  shows "(ignored input k \<longleftrightarrow> input = js ''c'')
       \<and> (input = js ''c'' \<longrightarrow> handler p st input k = [])
       \<and> (input \<noteq> js ''c'' \<longrightarrow>
            reaches_input_branch input k
            \<and> snd (edit p st input k) =
                (if isHighlighted st then input
                 else slice (originalValue p) 0 (cursorOffset st) @ input
                      @ slice (originalValue p) (cursorOffset st) (int (length (originalValue p))))
            \<and> handler p st input k =
                SetState (fst (edit p st input k))
                # (if snd (edit p st input k) \<noteq> originalValue p
                   then [OnChange (snd (edit p st input k))] else []))
       \<and> (input \<noteq> js ''c'' \<and> input \<noteq> [] \<and> \<not> isHighlighted st \<longrightarrow>
            change_calls (handler p st input k) =
              [slice (originalValue p) 0 (cursorOffset st) @ input
               @ slice (originalValue p) (cursorOffset st) (int (length (originalValue p)))])
       \<and> (input \<noteq> js ''c'' \<and> \<not> isHighlighted st \<and> 0 \<le> cursorOffset st
            \<and> cursorOffset st \<le> int (length (originalValue p)) \<longrightarrow>
            snd (edit p st input k) =
              take (nat (cursorOffset st)) (originalValue p) @ input
              @ drop (nat (cursorOffset st)) (originalValue p))
       \<and> (input \<noteq> js ''c'' \<and> isHighlighted st \<longrightarrow>
            change_calls (handler p st input k) =
              (if input \<noteq> originalValue p then [input] else []))"
proof -
  have ign: "ignored input k \<longleftrightarrow> input = js ''c''"
    using assms by (simp add: ignored_def)
  have stop: "input = js ''c'' \<longrightarrow> handler p st input k = []"
  proof
    assume "input = js ''c''"
    with ign have "ignored input k" by simp
    then show "handler p st input k = []" by (simp add: handler_def)
  qed
  let ?spliced = "slice (originalValue p) 0 (cursorOffset st) @ input
      @ slice (originalValue p) (cursorOffset st) (int (length (originalValue p)))"
  have rest: ?thesis if ne: "input \<noteq> js ''c''"
  proof -
    from ne ign assms have r: "reaches_input_branch input k"
      by (simp add: reaches_input_branch_def)
    then have i: "\<not> ignored input k" "\<not> return k"
      by (simp_all add: reaches_input_branch_def)
    have v: "snd (edit p st input k) = (if isHighlighted st then input else ?spliced)"
      using r by (simp add: edit_input_branch)
    have h: "handler p st input k =
        SetState (fst (edit p st input k))
        # (if snd (edit p st input k) \<noteq> originalValue p
           then [OnChange (snd (edit p st input k))] else [])"
      using i by (rule handler_edit)
    have c: "change_calls (handler p st input k) =
        (if snd (edit p st input k) \<noteq> originalValue p then [snd (edit p st input k)] else [])"
      using i by (simp add: change_calls_handler)
    have c1: "input \<noteq> [] \<and> \<not> isHighlighted st \<longrightarrow>
        change_calls (handler p st input k) = [?spliced]"
      using c v by (simp add: splice_differs)
    have c2: "\<not> isHighlighted st \<and> 0 \<le> cursorOffset st
        \<and> cursorOffset st \<le> int (length (originalValue p)) \<longrightarrow>
        snd (edit p st input k) =
          take (nat (cursorOffset st)) (originalValue p) @ input
          @ drop (nat (cursorOffset st)) (originalValue p)"
      using v by (simp add: slice_prefix slice_suffix)
    have c3: "isHighlighted st \<longrightarrow>
        change_calls (handler p st input k) = (if input \<noteq> originalValue p then [input] else [])"
      using c v by simp
    from ne ign r v h c1 c2 c3 stop show ?thesis by blast
  qed
  show ?thesis
  proof (cases "input = js ''c''")
    case True
    with ign stop show ?thesis by simp
  next
    case False
    then show ?thesis by (rule rest)
  qed
qed

text \<open>
  Ctrl+c and ctrl+a on \<open>xyz\<close>: at offset 1 without highlight, and with the value
  highlighted.
\<close>

theorem ctrl_letter_is_inserted_witness:
  "ctrl (plain_key\<lparr>ctrl := True\<rparr>)
   \<and> \<not> upArrow (plain_key\<lparr>ctrl := True\<rparr>) \<and> \<not> downArrow (plain_key\<lparr>ctrl := True\<rparr>)
   \<and> \<not> tab (plain_key\<lparr>ctrl := True\<rparr>) \<and> \<not> return (plain_key\<lparr>ctrl := True\<rparr>)
   \<and> \<not> leftArrow (plain_key\<lparr>ctrl := True\<rparr>) \<and> \<not> rightArrow (plain_key\<lparr>ctrl := True\<rparr>)
   \<and> \<not> backspace (plain_key\<lparr>ctrl := True\<rparr>) \<and> \<not> delete (plain_key\<lparr>ctrl := True\<rparr>)
   \<and> js ''a'' \<noteq> js ''c'' \<and> js ''a'' \<noteq> []
   \<and> \<not> isHighlighted \<lparr>cursorOffset = 1, cursorWidth = 0, isHighlighted = False\<rparr>
   \<and> (0::int) \<le> cursorOffset \<lparr>cursorOffset = 1, cursorWidth = 0, isHighlighted = False\<rparr>
   \<and> cursorOffset \<lparr>cursorOffset = 1, cursorWidth = 0, isHighlighted = False\<rparr>
       \<le> int (length (originalValue (default_props (js ''xyz''))))
   \<and> isHighlighted \<lparr>cursorOffset = 3, cursorWidth = 0, isHighlighted = True\<rparr>
   \<and> ignored (js ''c'') (plain_key\<lparr>ctrl := True\<rparr>)
   \<and> \<not> ignored (js ''a'') (plain_key\<lparr>ctrl := True\<rparr>)
   \<and> handler (default_props (js ''xyz''))
         \<lparr>cursorOffset = 1, cursorWidth = 0, isHighlighted = False\<rparr> (js ''c'')
         (plain_key\<lparr>ctrl := True\<rparr>) = []
   \<and> handler (default_props (js ''xyz''))
         \<lparr>cursorOffset = 1, cursorWidth = 0, isHighlighted = False\<rparr> (js ''a'')
         (plain_key\<lparr>ctrl := True\<rparr>)
       = [SetState \<lparr>cursorOffset = 2, cursorWidth = 0, isHighlighted = False\<rparr>,
          OnChange (js ''xayz'')]
   \<and> change_calls (handler (default_props (js ''xyz''))
         \<lparr>cursorOffset = 1, cursorWidth = 0, isHighlighted = False\<rparr> (js ''a'')
         (plain_key\<lparr>ctrl := True\<rparr>)) = [js ''xayz'']
   \<and> change_calls (handler (default_props (js ''xyz''))
         \<lparr>cursorOffset = 3, cursorWidth = 0, isHighlighted = True\<rparr> (js ''a'')
         (plain_key\<lparr>ctrl := True\<rparr>)) = [js ''a'']"
proof -
  let ?p = "default_props (js ''xyz'')"
  let ?plain = "\<lparr>cursorOffset = 1, cursorWidth = 0, isHighlighted = False\<rparr>"
  let ?high = "\<lparr>cursorOffset = 3, cursorWidth = 0, isHighlighted = True\<rparr>"
  let ?k = "plain_key\<lparr>ctrl := True\<rparr>"
  have h1: "ctrl ?k" by simp
  have h2: "\<not> upArrow ?k" "\<not> downArrow ?k" "\<not> tab ?k" "\<not> return ?k"
    "\<not> leftArrow ?k" "\<not> rightArrow ?k" "\<not> backspace ?k" "\<not> delete ?k"
    by (simp_all add: plain_key_def)
  have n: "js ''a'' \<noteq> js ''c''" "js ''a'' \<noteq> []" by (simp_all add: js_def)
  have a: "\<not> isHighlighted ?plain" "0 \<le> cursorOffset ?plain"
    "cursorOffset ?plain \<le> int (length (originalValue ?p))"
    by (simp_all add: js_def default_props_def)
  have b: "isHighlighted ?high" by simp
  note tc = ctrl_letter_is_inserted [OF h1 h2, where input = "js ''c''" and st = ?plain and p = ?p]
  note ta = ctrl_letter_is_inserted [OF h1 h2, where input = "js ''a''" and st = ?plain and p = ?p]
  note th = ctrl_letter_is_inserted [OF h1 h2, where input = "js ''a''" and st = ?high and p = ?p]
  from tc have i1: "ignored (js ''c'') ?k" by blast
  from tc have e0: "handler ?p ?plain (js ''c'') ?k = []" by blast
  from ta n have i2: "\<not> ignored (js ''a'') ?k" by blast
  from ta n a have v: "snd (edit ?p ?plain (js ''a'') ?k) =
      take (nat (cursorOffset ?plain)) (originalValue ?p) @ js ''a''
      @ drop (nat (cursorOffset ?plain)) (originalValue ?p)" by blast
  then have v': "snd (edit ?p ?plain (js ''a'') ?k) = js ''xayz''"
    by (simp add: js_def default_props_def)
  have s: "fst (edit ?p ?plain (js ''a'') ?k)
      = \<lparr>cursorOffset = 2, cursorWidth = 0, isHighlighted = False\<rparr>"
    by (simp add: edit_def Let_def plain_key_def default_props_def js_def)
  from ta n have "handler ?p ?plain (js ''a'') ?k =
      SetState (fst (edit ?p ?plain (js ''a'') ?k))
      # (if snd (edit ?p ?plain (js ''a'') ?k) \<noteq> originalValue ?p
         then [OnChange (snd (edit ?p ?plain (js ''a'') ?k))] else [])" by blast
  then have e1: "handler ?p ?plain (js ''a'') ?k
      = [SetState \<lparr>cursorOffset = 2, cursorWidth = 0, isHighlighted = False\<rparr>,
         OnChange (js ''xayz'')]"
    by (simp add: v' s) (simp add: js_def default_props_def)
  then have c1: "change_calls (handler ?p ?plain (js ''a'') ?k) = [js ''xayz'']"
    by (simp add: change_calls_def)
  from th n b have "change_calls (handler ?p ?high (js ''a'') ?k)
      = (if js ''a'' \<noteq> originalValue ?p then [js ''a''] else [])" by blast
  then have c2: "change_calls (handler ?p ?high (js ''a'') ?k) = [js ''a'']"
    by (simp add: js_def default_props_def)
  from h1 h2 n a b i1 i2 e0 e1 c1 c2 show ?thesis by (simp only: simp_thms)
qed

text \<open>
  The claim as written fails when the highlighted value already equals the input: ctrl+a
  on the highlighted value \<open>a\<close> sets the state and calls no \<open>onChange\<close>.
\<close>

theorem ctrl_letter_equal_to_value_counterexample:
  "handler (default_props (js ''a''))
      \<lparr>cursorOffset = 1, cursorWidth = 0, isHighlighted = True\<rparr> (js ''a'')
      (plain_key\<lparr>ctrl := True\<rparr>)
   = [SetState \<lparr>cursorOffset = 1, cursorWidth = 0, isHighlighted = False\<rparr>]
   \<and> change_calls (handler (default_props (js ''a''))
      \<lparr>cursorOffset = 1, cursorWidth = 0, isHighlighted = True\<rparr> (js ''a'')
      (plain_key\<lparr>ctrl := True\<rparr>)) = []"
  by (simp add: handler_def change_calls_def ignored_def edit_def Let_def plain_key_def
      default_props_def js_def)

end
